theory Spec2Isabelle
  imports Complex_Main "HOL-Library.Log_Nat"
begin

section \<open>Data model\<close>

text \<open>
  The embedding follows \<^verbatim>\<open>src/camFusion_Student.cpp\<close>. The structs of
  \<^verbatim>\<open>dataStructures.h\<close> and of OpenCV are records holding the fields the four
  operations read or write.

  Numbers. A \<^verbatim>\<open>float\<close> or \<^verbatim>\<open>double\<close> that the code receives (point
  coordinates, keypoint locations, dissimilarity scores, the shrink factor) is a finite
  \<^typ>\<open>real\<close>. The shrunk rectangle of the clusterer (lines 40-43) is computed as the
  code computes it, every \<^verbatim>\<open>float\<close> and \<^verbatim>\<open>double\<close> operation rounded to
  binary32 or binary64 before the conversion to \<^verbatim>\<open>int\<close>; elsewhere arithmetic on
  finite values is exact. Where the
  code can produce an infinity or a not-a-number (the two TTC estimators) the value is a
  \<open>double\<close> below, with the IEEE 754 rules for the special values. Pixel coordinates and
  rectangle fields are \<^typ>\<open>int\<close>; a conversion from floating point to \<^verbatim>\<open>int\<close>
  truncates towards zero. Out-of-range reads, integer division by zero, the overflow of
  the 32-bit accumulator and counters, and the conversion of a projected coordinate that
  does not fit 32 bits are values of \<open>error\<close>. Rectangles and keypoint locations are
  image coordinates, far inside the 32-bit range: arithmetic on them is not bounded.
\<close>

datatype error =
    UndefinedBehaviour  \<comment> \<open>out-of-range read with \<^verbatim>\<open>operator[]\<close>, invalid iterator, overflow\<close>
  | OutOfRange          \<comment> \<open>\<^verbatim>\<open>std::out_of_range\<close> thrown by \<^verbatim>\<open>vector::at\<close>\<close>
  | DivideByZero        \<comment> \<open>integer division by zero\<close>
  | CvException         \<comment> \<open>OpenCV refuses a matrix product of mismatched sizes\<close>

record LidarPoint =
  lp_x :: real
  lp_y :: real
  lp_z :: real
  lp_r :: real

record Point =
  p_x :: int
  p_y :: int

record Point2f =
  pf_x :: real
  pf_y :: real

record Rect =
  r_x :: int
  r_y :: int
  r_width :: int
  r_height :: int

record KeyPoint =
  pt :: Point2f

record DMatch =
  queryIdx :: int
  trainIdx :: int
  distance :: real

record BoundingBox =
  boxID :: int
  roi :: Rect
  lidarPoints :: "LidarPoint list"
  kptMatches :: "DMatch list"

record DataFrame =
  keypoints :: "KeyPoint list"
  boundingBoxes :: "BoundingBox list"

section \<open>Doubles with infinities and not-a-number\<close>

datatype double = Fin real | PInf | NInf | NaN

text \<open>
  IEEE 754 on the special values. A zero is the positive zero (the only zeros the code
  divides by are a counter that was never incremented and a difference of equal values).
\<close>

fun d_neg :: "double \<Rightarrow> double" where
  "d_neg (Fin a) = Fin (- a)"
| "d_neg PInf = NInf"
| "d_neg NInf = PInf"
| "d_neg NaN = NaN"

fun d_sub :: "double \<Rightarrow> double \<Rightarrow> double" where
  "d_sub NaN _ = NaN"
| "d_sub _ NaN = NaN"
| "d_sub (Fin a) (Fin b) = Fin (a - b)"
| "d_sub (Fin a) PInf = NInf"
| "d_sub (Fin a) NInf = PInf"
| "d_sub PInf PInf = NaN"
| "d_sub PInf _ = PInf"
| "d_sub NInf NInf = NaN"
| "d_sub NInf _ = NInf"

fun d_mul :: "double \<Rightarrow> double \<Rightarrow> double" where
  "d_mul NaN _ = NaN"
| "d_mul _ NaN = NaN"
| "d_mul (Fin a) (Fin b) = Fin (a * b)"
| "d_mul (Fin a) PInf = (if a > 0 then PInf else if a < 0 then NInf else NaN)"
| "d_mul (Fin a) NInf = (if a > 0 then NInf else if a < 0 then PInf else NaN)"
| "d_mul PInf (Fin b) = (if b > 0 then PInf else if b < 0 then NInf else NaN)"
| "d_mul NInf (Fin b) = (if b > 0 then NInf else if b < 0 then PInf else NaN)"
| "d_mul PInf PInf = PInf"
| "d_mul PInf NInf = NInf"
| "d_mul NInf PInf = NInf"
| "d_mul NInf NInf = PInf"

fun d_div :: "double \<Rightarrow> double \<Rightarrow> double" where
  "d_div NaN _ = NaN"
| "d_div _ NaN = NaN"
| "d_div (Fin a) (Fin b) =
     (if b \<noteq> 0 then Fin (a / b)
      else if a > 0 then PInf else if a < 0 then NInf else NaN)"
| "d_div (Fin a) _ = Fin 0"
| "d_div PInf (Fin b) = (if b \<ge> 0 then PInf else NInf)"
| "d_div NInf (Fin b) = (if b \<ge> 0 then NInf else PInf)"
| "d_div _ _ = NaN"

section \<open>Range-based TTC: computeTTCLidar\<close>

text \<open>
  One of the two loops of lines 236-243 and 246-252: the running minimum of \<open>x\<close> over
  the points with \<open>|y| \<le> laneWidth / 2\<close>, and the count of those points. The count is a
  \<^verbatim>\<open>double\<close> in the source.
\<close>

fun laneScan :: "real \<Rightarrow> LidarPoint list \<Rightarrow> real \<times> real \<Rightarrow> real \<times> real" where
  "laneScan laneWidth [] (minX, minXSize) = (minX, minXSize)"
| "laneScan laneWidth (p # ps) (minX, minXSize) =
     (if \<bar>lp_y p\<bar> \<le> laneWidth / 2
      then laneScan laneWidth ps ((if minX > lp_x p then lp_x p else minX), minXSize + 1)
      else laneScan laneWidth ps (minX, minXSize))"

definition computeTTCLidar :: "LidarPoint list \<Rightarrow> LidarPoint list \<Rightarrow> double \<Rightarrow> double" where
  "computeTTCLidar lidarPointsPrev lidarPointsCurr frameRate =
     (let laneWidth = 4 in
      if lidarPointsCurr = [] \<or> lidarPointsPrev = [] then NaN
      else
        let (mp, minXPrevSize) = laneScan laneWidth lidarPointsPrev (1000000000, 0);
            minXPrev = d_div (Fin mp) (Fin minXPrevSize);
            (mc, minXCurrSize) = laneScan laneWidth lidarPointsCurr (1000000000, 0);
            minXCurr = d_div (Fin mc) (Fin minXCurrSize);
            minXPrev = d_div minXPrev (Fin minXPrevSize)
        in d_div (d_mul minXCurr (d_div (Fin 1) frameRate)) (d_sub minXPrev minXCurr))"

text \<open>The closest in-lane distance of a point set, as the comment of line 226 names it.\<close>

definition closestInLane :: "LidarPoint list \<Rightarrow> real" where
  "closestInLane ps = Min (set (map lp_x (filter (\<lambda>p. \<bar>lp_y p\<bar> \<le> 4 / 2) ps)))"

section \<open>Conversions and OpenCV helpers\<close>

text \<open>Conversion of a floating-point value to \<^verbatim>\<open>int\<close>: truncation towards zero.\<close>

definition trunc :: "real \<Rightarrow> int" where
  "trunc r = (if r \<ge> 0 then \<lfloor>r\<rfloor> else \<lceil>r\<rceil>)"

text \<open>
  The same conversion where the code stores into a 32-bit \<^verbatim>\<open>int\<close>: a value that
  does not fit is undefined behaviour.
\<close>

definition truncToInt :: "real \<Rightarrow> error + int" where
  "truncToInt r =
     (if - (2 ^ 31) \<le> trunc r \<and> trunc r < 2 ^ 31 then Inr (trunc r)
      else Inl UndefinedBehaviour)"

text \<open>
  \<^verbatim>\<open>cvRound\<close>, used by OpenCV when a \<^verbatim>\<open>Point2f\<close> is passed where a
  \<^verbatim>\<open>cv::Point\<close> is expected: round to nearest, ties to even.
\<close>

definition cvRound :: "real \<Rightarrow> int" where
  "cvRound r =
     (let f = \<lfloor>r\<rfloor> in
      if r - of_int f < 1 / 2 then f
      else if r - of_int f > 1 / 2 then f + 1
      else if even f then f else f + 1)"

definition toPoint :: "Point2f \<Rightarrow> Point" where
  "toPoint q = \<lparr>p_x = cvRound (pf_x q), p_y = cvRound (pf_y q)\<rparr>"

text \<open>\<^verbatim>\<open>cv::Rect::contains\<close>: left and top edges inclusive, right and bottom exclusive.\<close>

definition contains :: "Rect \<Rightarrow> Point \<Rightarrow> bool" where
  "contains r q =
     (r_x r \<le> p_x q \<and> p_x q < r_x r + r_width r \<and> r_y r \<le> p_y q \<and> p_y q < r_y r + r_height r)"

text \<open>\<^verbatim>\<open>vector::operator[]\<close> with an \<^verbatim>\<open>int\<close> index, and \<^verbatim>\<open>vector::at\<close>.\<close>

definition index_vec :: "'a list \<Rightarrow> int \<Rightarrow> error + 'a" where
  "index_vec xs i =
     (if 0 \<le> i \<and> i < int (length xs) then Inr (xs ! nat i) else Inl UndefinedBehaviour)"

definition at_vec :: "'a list \<Rightarrow> int \<Rightarrow> error + 'a" where
  "at_vec xs i =
     (if 0 \<le> i \<and> i < int (length xs) then Inr (xs ! nat i) else Inl OutOfRange)"

text \<open>\<^verbatim>\<open>cv::norm(a - b)\<close> on two \<^verbatim>\<open>Point2f\<close>.\<close>

definition norm2f :: "Point2f \<Rightarrow> Point2f \<Rightarrow> real" where
  "norm2f a b = sqrt ((pf_x a - pf_x b) ^ 2 + (pf_y a - pf_y b) ^ 2)"

section \<open>Vision-based TTC: computeTTCCamera\<close>

text \<open>
  Iterators are positions in the vector. The inner loop of lines 175-194 runs \<open>it2\<close>
  from \<open>begin() + 1\<close> until it equals \<open>end()\<close>.
\<close>

function innerLoop ::
  "KeyPoint list \<Rightarrow> KeyPoint list \<Rightarrow> DMatch list \<Rightarrow> KeyPoint \<Rightarrow> KeyPoint \<Rightarrow> nat \<Rightarrow> real list
     \<Rightarrow> error + real list" where
  "innerLoop kptsPrev kptsCurr ms kpOuterCurr kpOuterPrev it2 distRatios =
     (if it2 = length ms then Inr distRatios
      else if it2 > length ms then Inl UndefinedBehaviour
      else
        case at_vec kptsCurr (trainIdx (ms ! it2)) of
          Inl e \<Rightarrow> Inl e
        | Inr kpInnerCurr \<Rightarrow>
            (case at_vec kptsPrev (queryIdx (ms ! it2)) of
               Inl e \<Rightarrow> Inl e
             | Inr kpInnerPrev \<Rightarrow>
                 let minDist = 100;
                     distCurr = norm2f (pt kpOuterCurr) (pt kpInnerCurr);
                     distPrev = norm2f (pt kpOuterPrev) (pt kpInnerPrev)
                 in innerLoop kptsPrev kptsCurr ms kpOuterCurr kpOuterPrev (it2 + 1)
                      (if distPrev > 1 / 2 ^ 52 \<and> distCurr \<ge> minDist
                       then distRatios @ [distCurr / distPrev] else distRatios)))"
  by pat_completeness auto
termination
  by (relation "measure (\<lambda>(kp, kc, ms, oc, op, it2, ds). length ms - it2)") auto

text \<open>
  The outer loop of lines 168-195 runs \<open>it1\<close> from \<open>begin()\<close> until it equals
  \<open>end() - 1\<close>. On an empty vector \<open>end() - 1\<close> lies before \<open>begin()\<close>, the test
  \<open>it1 != end() - 1\<close> holds, and the body reads \<open>*it1\<close> past the end.
\<close>

function outerLoop ::
  "KeyPoint list \<Rightarrow> KeyPoint list \<Rightarrow> DMatch list \<Rightarrow> nat \<Rightarrow> real list \<Rightarrow> error + real list" where
  "outerLoop kptsPrev kptsCurr ms it1 distRatios =
     (if int it1 = int (length ms) - 1 then Inr distRatios
      else if it1 \<ge> length ms then Inl UndefinedBehaviour
      else
        case at_vec kptsCurr (trainIdx (ms ! it1)) of
          Inl e \<Rightarrow> Inl e
        | Inr kpOuterCurr \<Rightarrow>
            (case at_vec kptsPrev (queryIdx (ms ! it1)) of
               Inl e \<Rightarrow> Inl e
             | Inr kpOuterPrev \<Rightarrow>
                 (case innerLoop kptsPrev kptsCurr ms kpOuterCurr kpOuterPrev 1 distRatios of
                    Inl e \<Rightarrow> Inl e
                  | Inr distRatios' \<Rightarrow> outerLoop kptsPrev kptsCurr ms (it1 + 1) distRatios')))"
  by pat_completeness auto
termination
  by (relation "measure (\<lambda>(kp, kc, ms, it1, ds). length ms - it1)") auto

text \<open>
  Lines 205-211: sort, then read position \<open>size / 2 + 1\<close> for an even size and
  \<open>size / 2\<close> for an odd one, with \<^verbatim>\<open>operator[]\<close>.
\<close>

definition medianDistRatio :: "real list \<Rightarrow> error + real" where
  "medianDistRatio distRatios =
     (let sorted_ratios = sort distRatios; n = length sorted_ratios in
      if n mod 2 = 0 then index_vec sorted_ratios (int (n div 2 + 1))
      else index_vec sorted_ratios (int (n div 2)))"

definition computeTTCCamera ::
  "KeyPoint list \<Rightarrow> KeyPoint list \<Rightarrow> DMatch list \<Rightarrow> double \<Rightarrow> error + double" where
  "computeTTCCamera kptsPrev kptsCurr matches frameRate =
     (case outerLoop kptsPrev kptsCurr matches 0 [] of
        Inl e \<Rightarrow> Inl e
      | Inr distRatios \<Rightarrow>
          if length distRatios = 0 then Inr NaN
          else
            (case medianDistRatio distRatios of
               Inl e \<Rightarrow> Inl e
             | Inr m \<Rightarrow>
                 let dT = d_div (Fin 1) frameRate
                 in Inr (d_div (d_neg dT) (d_sub (Fin 1) (Fin m)))))"

section \<open>Correspondence filter: clusterKptMatchesWithROI\<close>

text \<open>Lines 141-150: the matches whose current keypoint lies in the rectangle.\<close>

fun roiLoop ::
  "Rect \<Rightarrow> KeyPoint list \<Rightarrow> DMatch list \<Rightarrow> DMatch list \<times> real list
     \<Rightarrow> error + (DMatch list \<times> real list)" where
  "roiLoop r kptsCurr [] (kptsRoi, accDistances) = Inr (kptsRoi, accDistances)"
| "roiLoop r kptsCurr (eachMatch # ms) (kptsRoi, accDistances) =
     (case index_vec kptsCurr (trainIdx eachMatch) of
        Inl e \<Rightarrow> Inl e
      | Inr kpt \<Rightarrow>
          if contains r \<lparr>p_x = trunc (pf_x (pt kpt)), p_y = trunc (pf_y (pt kpt))\<rparr>
          then roiLoop r kptsCurr ms (kptsRoi @ [eachMatch], accDistances @ [distance eachMatch])
          else roiLoop r kptsCurr ms (kptsRoi, accDistances))"

text \<open>
  \<^verbatim>\<open>std::accumulate(first, last, 0)\<close>: the initial value \<open>0\<close> is an \<^verbatim>\<open>int\<close>, so
  the accumulator is an \<^verbatim>\<open>int\<close> and every partial sum is converted back to it.
\<close>

fun accumulate :: "real list \<Rightarrow> int \<Rightarrow> error + int" where
  "accumulate [] init = Inr init"
| "accumulate (d # ds) init =
     (case truncToInt (of_int init + d) of
        Inl e \<Rightarrow> Inl e
      | Inr init' \<Rightarrow> accumulate ds init')"

text \<open>
  \<^verbatim>\<open>int / size_t\<close> stored in a \<^verbatim>\<open>long\<close> (64-bit): the \<^verbatim>\<open>int\<close> becomes an
  unsigned 64-bit value, the division is unsigned, and the quotient is read back as signed.
\<close>

definition divBySize :: "int \<Rightarrow> nat \<Rightarrow> error + int" where
  "divBySize s n =
     (if n = 0 then Inl DivideByZero
      else
        let q = (s mod 2 ^ 64) div int n
        in Inr (if q \<ge> 2 ^ 63 then q - 2 ^ 64 else q))"

definition clusterKptMatchesWithROI ::
  "BoundingBox \<Rightarrow> KeyPoint list \<Rightarrow> KeyPoint list \<Rightarrow> DMatch list \<Rightarrow> error + BoundingBox" where
  "clusterKptMatchesWithROI boundingBox kptsPrev kptsCurr matches =
     (case roiLoop (roi boundingBox) kptsCurr matches ([], []) of
        Inl e \<Rightarrow> Inl e
      | Inr (kptsRoi, accDistances) \<Rightarrow>
          (case accumulate accDistances 0 of
             Inl e \<Rightarrow> Inl e
           | Inr s \<Rightarrow>
               (case divBySize s (length accDistances) of
                  Inl e \<Rightarrow> Inl e
                | Inr meanDist \<Rightarrow>
                    let threshold = 7 / 10 * real_of_int meanDist
                    in Inr (boundingBox\<lparr>kptMatches :=
                              kptMatches boundingBox @
                              filter (\<lambda>eachRoiMatch. distance eachRoiMatch < threshold) kptsRoi\<rparr>))))"

text \<open>
  The wording of the specification: the candidate set of a rectangle (the correspondences
  whose current keypoint, converted to a pixel, lies inside it) and the arithmetic mean of
  the dissimilarities of a list of correspondences.
\<close>

definition inRoi :: "Rect \<Rightarrow> KeyPoint list \<Rightarrow> DMatch \<Rightarrow> bool" where
  "inRoi r kptsCurr m =
     contains r \<lparr>p_x = trunc (pf_x (pt (kptsCurr ! nat (trainIdx m)))),
                 p_y = trunc (pf_y (pt (kptsCurr ! nat (trainIdx m))))\<rparr>"

definition candidates :: "Rect \<Rightarrow> KeyPoint list \<Rightarrow> DMatch list \<Rightarrow> DMatch list" where
  "candidates r kptsCurr ms = filter (inRoi r kptsCurr) ms"

definition meanDistance :: "DMatch list \<Rightarrow> real" where
  "meanDistance ms = sum_list (map distance ms) / real (length ms)"

section \<open>Region clusterer: clusterLidarWithROI\<close>

text \<open>
  A \<^verbatim>\<open>cv::Mat\<close> of doubles is the list of its rows. A product of matrices whose
  sizes do not fit raises an OpenCV exception.
\<close>

type_synonym Mat = "real list list"

definition rows :: "Mat \<Rightarrow> nat" where
  "rows M = length M"

definition cols :: "Mat \<Rightarrow> nat" where
  "cols M = (case M of [] \<Rightarrow> 0 | r # _ \<Rightarrow> length r)"

definition matMul :: "Mat \<Rightarrow> Mat \<Rightarrow> error + Mat" where
  "matMul A B =
     (if cols A = rows B
      then Inr (map (\<lambda>row. map (\<lambda>j. sum_list (map (\<lambda>k. row ! k * B ! k ! j) [0..<rows B]))
                              [0..<cols B]) A)
      else Inl CvException)"

text \<open>
  Lines 24-33. \<open>Y\<close> is a column of three doubles; \<^verbatim>\<open>Y.at<double>(0, 2)\<close> reads the
  third double of that column, the depth. A zero depth makes the quotient an infinity or a
  not-a-number, whose conversion to \<^verbatim>\<open>int\<close> is undefined, as is the conversion
  of a quotient beyond the 32-bit range.
\<close>

definition project :: "Mat \<Rightarrow> Mat \<Rightarrow> Mat \<Rightarrow> LidarPoint \<Rightarrow> error + Point" where
  "project P_rect_xx R_rect_xx RT p =
     (let X = [[lp_x p], [lp_y p], [lp_z p], [1]] in
      case matMul P_rect_xx R_rect_xx of
        Inl e \<Rightarrow> Inl e
      | Inr PR \<Rightarrow>
          (case matMul PR RT of
             Inl e \<Rightarrow> Inl e
           | Inr PRT \<Rightarrow>
               (case matMul PRT X of
                  Inl e \<Rightarrow> Inl e
                | Inr Y \<Rightarrow>
                    if rows Y < 3 then Inl UndefinedBehaviour
                    else if Y ! 2 ! 0 = 0 then Inl UndefinedBehaviour
                    else
                      (case truncToInt (Y ! 0 ! 0 / Y ! 2 ! 0) of
                         Inl e \<Rightarrow> Inl e
                       | Inr u \<Rightarrow>
                           (case truncToInt (Y ! 1 ! 0 / Y ! 2 ! 0) of
                              Inl e \<Rightarrow> Inl e
                            | Inr v \<Rightarrow> Inr \<lparr>p_x = u, p_y = v\<rparr>)))))"

text \<open>
  Rounding to a binary floating-point format with \<open>p\<close> significant bits and least
  exponent \<open>emin\<close>, to nearest with ties to even: \<^verbatim>\<open>float\<close> is \<open>round32\<close>,
  \<^verbatim>\<open>double\<close> is \<open>round64\<close>. The exponent has no upper limit here: a value beyond the
  largest float stays finite and huge, and the code converts every such value to
  \<^verbatim>\<open>int\<close>, which is undefined for the infinity as it is for the huge value.
\<close>

definition nearestEven :: "real \<Rightarrow> int" where
  "nearestEven r =
     (let f = \<lfloor>r\<rfloor> in
      if r - of_int f < 1 / 2 then f
      else if r - of_int f > 1 / 2 then f + 1
      else if even f then f else f + 1)"

definition pow2 :: "int \<Rightarrow> real" where
  "pow2 k = (if k \<ge> 0 then 2 ^ nat k else 1 / 2 ^ nat (- k))"

text \<open>The binary exponent of a non-zero \<open>x\<close>: the \<open>e\<close> with \<open>2\<^sup>e \<le> \<bar>x\<bar> < 2\<^sup>e\<^sup>+\<^sup>1\<close>.\<close>

definition exponent :: "real \<Rightarrow> int" where
  "exponent x =
     (if 1 \<le> \<bar>x\<bar> then bitlen \<lfloor>\<bar>x\<bar>\<rfloor> - 1
      else - bitlen (\<lceil>1 / \<bar>x\<bar>\<rceil> - 1))"

definition roundFloat :: "nat \<Rightarrow> int \<Rightarrow> real \<Rightarrow> real" where
  "roundFloat p emin x =
     (if x = 0 then 0
      else
        let e = max (exponent x) emin;
            u = pow2 (e - int p + 1)
        in of_int (nearestEven (x / u)) * u)"

definition round32 :: "real \<Rightarrow> real" where
  "round32 x = roundFloat 24 (- 126) x"

definition round64 :: "real \<Rightarrow> real" where
  "round64 x = roundFloat 53 (- 1022) x"

text \<open>
  Lines 39-43: the shrunk rectangle. \<open>shrinkFactor\<close> is a \<^verbatim>\<open>float\<close>, so
  \<open>shrinkFactor * width\<close>, \<open>1 - shrinkFactor\<close> and \<open>width * (1 - shrinkFactor)\<close> are
  computed in binary32 on the width converted to \<^verbatim>\<open>float\<close>; the division by
  \<open>2.0\<close> and the addition of the origin are computed in binary64 (halving is exact there).
  Each field is then converted to \<^verbatim>\<open>int\<close>.
\<close>

definition smallerBox :: "real \<Rightarrow> Rect \<Rightarrow> error + Rect" where
  "smallerBox shrinkFactor r =
     (case truncToInt
             (round64 (of_int (r_x r) + round32 (shrinkFactor * round32 (of_int (r_width r))) / 2)) of
        Inl e \<Rightarrow> Inl e
      | Inr sx \<Rightarrow>
          (case truncToInt
                  (round64 (of_int (r_y r) +
                            round32 (shrinkFactor * round32 (of_int (r_height r))) / 2)) of
             Inl e \<Rightarrow> Inl e
           | Inr sy \<Rightarrow>
               (case truncToInt
                       (round32 (round32 (of_int (r_width r)) * round32 (1 - shrinkFactor))) of
                  Inl e \<Rightarrow> Inl e
                | Inr sw \<Rightarrow>
                    (case truncToInt
                            (round32 (round32 (of_int (r_height r)) * round32 (1 - shrinkFactor))) of
                       Inl e \<Rightarrow> Inl e
                     | Inr sh \<Rightarrow> Inr \<lparr>r_x = sx, r_y = sy, r_width = sw, r_height = sh\<rparr>))))"

text \<open>
  Lines 35-51: the loop over the boxes at the positions \<open>its\<close>, collecting the positions
  of the boxes whose shrunk rectangle holds the pixel.
\<close>

fun enclosingBoxes :: "BoundingBox list \<Rightarrow> real \<Rightarrow> Point \<Rightarrow> nat list \<Rightarrow> error + nat list" where
  "enclosingBoxes bbs shrinkFactor q [] = Inr []"
| "enclosingBoxes bbs shrinkFactor q (it2 # its) =
     (case smallerBox shrinkFactor (roi (bbs ! it2)) of
        Inl e \<Rightarrow> Inl e
      | Inr sb \<Rightarrow>
          (case enclosingBoxes bbs shrinkFactor q its of
             Inl e \<Rightarrow> Inl e
           | Inr rest \<Rightarrow> Inr (if contains sb q then it2 # rest else rest)))"

fun clusterLidarWithROI ::
  "BoundingBox list \<Rightarrow> LidarPoint list \<Rightarrow> real \<Rightarrow> Mat \<Rightarrow> Mat \<Rightarrow> Mat \<Rightarrow> error + BoundingBox list" where
  "clusterLidarWithROI bbs [] shrinkFactor P_rect_xx R_rect_xx RT = Inr bbs"
| "clusterLidarWithROI bbs (it1 # points) shrinkFactor P_rect_xx R_rect_xx RT =
     (case project P_rect_xx R_rect_xx RT it1 of
        Inl e \<Rightarrow> Inl e
      | Inr q \<Rightarrow>
          (case enclosingBoxes bbs shrinkFactor q [0..<length bbs] of
             Inl e \<Rightarrow> Inl e
           | Inr encl \<Rightarrow>
               if length encl = 1
               then clusterLidarWithROI
                      (bbs[encl ! 0 := (bbs ! (encl ! 0))
                             \<lparr>lidarPoints := lidarPoints (bbs ! (encl ! 0)) @ [it1]\<rparr>])
                      points shrinkFactor P_rect_xx R_rect_xx RT
               else clusterLidarWithROI bbs points shrinkFactor P_rect_xx R_rect_xx RT))"




section \<open>Region associator: matchBoundingBoxes\<close>

text \<open>
  Lines 289-293 and 295-303: the identifier of the last box of the frame whose rectangle
  holds the keypoint, or the starting value. The keypoint is read once per box.
\<close>

fun scanBoxes :: "BoundingBox list \<Rightarrow> KeyPoint list \<Rightarrow> int \<Rightarrow> int \<Rightarrow> error + int" where
  "scanBoxes [] kpts idx found = Inr found"
| "scanBoxes (eachBox # bs) kpts idx found =
     (case index_vec kpts idx of
        Inl e \<Rightarrow> Inl e
      | Inr k \<Rightarrow>
          scanBoxes bs kpts idx
            (if contains (roi eachBox) (toPoint (pt k)) then boxID eachBox else found))"

text \<open>
  Line 307: \<^verbatim>\<open>matchMatrix[currID][prevID]++\<close> on a matrix of 32-bit \<^verbatim>\<open>int\<close>.
\<close>

definition incrCell :: "int list list \<Rightarrow> int \<Rightarrow> int \<Rightarrow> error + int list list" where
  "incrCell M currID prevID =
     (if 0 \<le> currID \<and> currID < int (length M) \<and>
         0 \<le> prevID \<and> prevID < int (length (M ! nat currID))
      then
        if M ! nat currID ! nat prevID = 2 ^ 31 - 1 then Inl UndefinedBehaviour
        else Inr (M[nat currID :=
                     (M ! nat currID)[nat prevID := M ! nat currID ! nat prevID + 1]])
      else Inl UndefinedBehaviour)"

fun voteLoop :: "DMatch list \<Rightarrow> DataFrame \<Rightarrow> DataFrame \<Rightarrow> int list list \<Rightarrow> error + int list list" where
  "voteLoop [] prevFrame currFrame M = Inr M"
| "voteLoop (eachMatch # ms) prevFrame currFrame M =
     (case scanBoxes (boundingBoxes currFrame) (keypoints currFrame) (trainIdx eachMatch) (- 1) of
        Inl e \<Rightarrow> Inl e
      | Inr currID \<Rightarrow>
          (case scanBoxes (boundingBoxes prevFrame) (keypoints prevFrame) (queryIdx eachMatch) (- 1) of
             Inl e \<Rightarrow> Inl e
           | Inr prevID \<Rightarrow>
               if currID \<noteq> - 1 \<and> prevID \<noteq> - 1
               then (case incrCell M currID prevID of
                       Inl e \<Rightarrow> Inl e
                     | Inr M' \<Rightarrow> voteLoop ms prevFrame currFrame M')
               else voteLoop ms prevFrame currFrame M))"

text \<open>Lines 313-320: the scan of row \<open>i\<close>, from \<open>maxCount = INT_MIN\<close> and \<open>index = 0\<close>.\<close>

definition scanStep :: "int list \<Rightarrow> nat \<Rightarrow> int \<times> int \<Rightarrow> int \<times> int" where
  "scanStep row j st =
     (case st of (maxCount, index) \<Rightarrow>
        if row ! j > maxCount then (row ! j, int j) else (maxCount, index))"

definition bestIndex :: "int list list \<Rightarrow> nat \<Rightarrow> nat \<Rightarrow> int" where
  "bestIndex M prevSize i = snd (fold (scanStep (M ! i)) [0..<prevSize] (- (2 ^ 31), 0))"

definition matchBoundingBoxes ::
  "DMatch list \<Rightarrow> (int \<rightharpoonup> int) \<Rightarrow> DataFrame \<Rightarrow> DataFrame \<Rightarrow> error + (int \<rightharpoonup> int)" where
  "matchBoundingBoxes matches bbBestMatches prevFrame currFrame =
     (let prevSize = length (boundingBoxes prevFrame);
          currSize = length (boundingBoxes currFrame);
          matchMatrix = replicate currSize (replicate prevSize 0)
      in case voteLoop matches prevFrame currFrame matchMatrix of
           Inl e \<Rightarrow> Inl e
         | Inr M \<Rightarrow>
             Inr (fold (\<lambda>i m. m(int i \<mapsto> bestIndex M prevSize i)) [0..<currSize] bbBestMatches))"

text \<open>
  The wording of the specification. The vote count of a pair of Region identifiers: the
  number of correspondences whose current keypoint is attributed to \<open>c\<close> and whose
  previous keypoint is attributed to \<open>p\<close>, by the scans above.
\<close>

definition votes :: "DMatch list \<Rightarrow> DataFrame \<Rightarrow> DataFrame \<Rightarrow> int \<Rightarrow> int \<Rightarrow> nat" where
  "votes ms prevFrame currFrame c p =
     length (filter (\<lambda>m.
        scanBoxes (boundingBoxes currFrame) (keypoints currFrame) (trainIdx m) (- 1) = Inr c \<and>
        scanBoxes (boundingBoxes prevFrame) (keypoints prevFrame) (queryIdx m) (- 1) = Inr p) ms)"

text \<open>
  \<open>j\<close> is the previous identifier with the highest count among \<open>0, ..., n - 1\<close>, and
  the lowest such identifier; with no previous Region it is \<open>0\<close>.
\<close>

definition firstBest :: "(int \<Rightarrow> nat) \<Rightarrow> nat \<Rightarrow> int \<Rightarrow> bool" where
  "firstBest v n j =
     (if n = 0 then j = 0
      else 0 \<le> j \<and> j < int n \<and> (\<forall>p<n. v (int p) \<le> v j) \<and> (\<forall>p<nat j. v (int p) < v j))"

section \<open>Example inputs\<close>

text \<open>
  A pinhole setting in which a range point \<open>(a, b, 1)\<close> projects to the pixel
  \<open>(a, b)\<close>: the projection matrix keeps the first three coordinates, the other two
  transforms are the identity.
\<close>

definition P_ex :: Mat where
  "P_ex = [[1, 0, 0, 0], [0, 1, 0, 0], [0, 0, 1, 0]]"

definition I_ex :: Mat where
  "I_ex = [[1, 0, 0, 0], [0, 1, 0, 0], [0, 0, 1, 0], [0, 0, 0, 1]]"

definition pt_ex :: "real \<Rightarrow> real \<Rightarrow> LidarPoint" where
  "pt_ex a b = \<lparr>lp_x = a, lp_y = b, lp_z = 1, lp_r = 0\<rparr>"

definition box_ex :: "int \<Rightarrow> int \<Rightarrow> int \<Rightarrow> int \<Rightarrow> int \<Rightarrow> BoundingBox" where
  "box_ex i a b w h =
     \<lparr>boxID = i, roi = \<lparr>r_x = a, r_y = b, r_width = w, r_height = h\<rparr>,
      lidarPoints = [], kptMatches = []\<rparr>"

definition kp_ex :: "real \<Rightarrow> real \<Rightarrow> KeyPoint" where
  "kp_ex a b = \<lparr>pt = \<lparr>pf_x = a, pf_y = b\<rparr>\<rparr>"

definition dm_ex :: "int \<Rightarrow> int \<Rightarrow> real \<Rightarrow> DMatch" where
  "dm_ex q t d = \<lparr>queryIdx = q, trainIdx = t, distance = d\<rparr>"

definition prev_ex :: DataFrame where
  "prev_ex = \<lparr>keypoints = [kp_ex 10 10, kp_ex 250 50, kp_ex 260 60],
              boundingBoxes = [box_ex 0 0 0 100 100, box_ex 1 200 0 100 100]\<rparr>"

definition curr_ex :: DataFrame where
  "curr_ex = \<lparr>keypoints = [kp_ex 20 20, kp_ex 255 55, kp_ex 265 65],
              boundingBoxes = [box_ex 0 0 0 100 100, box_ex 1 200 0 100 100]\<rparr>"





text \<open>A range point on the lane axis at distance \<open>a\<close>.\<close>

definition lane_ex :: "real \<Rightarrow> LidarPoint" where
  "lane_ex a = \<lparr>lp_x = a, lp_y = 0, lp_z = 0, lp_r = 0\<rparr>"

section \<open>Helper lemmas\<close>

declare outerLoop.simps [simp del] innerLoop.simps [simp del]

lemma d_div_NaN_right: "d_div a NaN = NaN"
  by (cases a) simp_all

lemma laneScan_none:
  "\<forall>p\<in>set ps. \<bar>lp_y p\<bar> > w / 2 \<Longrightarrow> laneScan w ps acc = acc"
  by (induction ps arbitrary: acc) (auto split: prod.splits)

lemma norm2f_same_row: "pf_y a = pf_y b \<Longrightarrow> norm2f a b = \<bar>pf_x a - pf_x b\<bar>"
  by (simp add: norm2f_def)

lemma trunc_small: "\<bar>a\<bar> < 2 ^ 31 \<Longrightarrow> - (2 ^ 31) \<le> trunc a \<and> trunc a < 2 ^ 31"
  unfolding trunc_def by (auto; linarith)

lemma project_ex:
  "\<bar>a\<bar> < 2 ^ 31 \<Longrightarrow> \<bar>b\<bar> < 2 ^ 31 \<Longrightarrow>
   project P_ex I_ex I_ex (pt_ex a b) = Inr \<lparr>p_x = trunc a, p_y = trunc b\<rparr>"
  using trunc_small [of a] trunc_small [of b]
  by (simp add: project_def matMul_def rows_def cols_def P_ex_def I_ex_def pt_ex_def truncToInt_def
      upt_rec [of 0] upt_rec [of 1] upt_rec [of 2] upt_rec [of 3] upt_rec [of 4])

subsection \<open>Rounding to binary floating point\<close>

lemma pow2_powr: "pow2 k = 2 powr (of_int k)"
  by (simp add: pow2_def powr_real_of_int inverse_eq_divide)

lemma pow2_pos: "0 < pow2 k"
  by (simp add: pow2_powr)

lemma pow2_add: "pow2 (j + k) = pow2 j * pow2 k"
  by (simp add: pow2_powr powr_add)

lemma floorlog_2_eq:
  assumes "2 ^ k \<le> n" and "n < 2 ^ Suc k"
  shows "floorlog 2 n = Suc k"
proof -
  have "Suc k \<le> floorlog 2 n" using assms(1) by (intro floorlog_ge_SucI) simp_all
  moreover have "floorlog 2 n \<le> Suc k" using assms(2) by (intro floorlog_leI) simp_all
  ultimately show ?thesis by simp
qed

lemma exponent_at:
  assumes lo: "pow2 e \<le> \<bar>x\<bar>" and hi: "\<bar>x\<bar> < pow2 (e + 1)"
  shows "exponent x = e"
proof (cases "1 \<le> \<bar>x\<bar>")
  case True
  have e0: "0 \<le> e"
  proof (rule ccontr)
    assume "\<not> 0 \<le> e"
    then have "pow2 (e + 1) \<le> 1" by (simp add: pow2_def)
    with hi True show False by linarith
  qed
  define k where "k = nat e"
  define n where "n = nat \<lfloor>\<bar>x\<bar>\<rfloor>"
  have ek: "e = int k" using e0 by (simp add: k_def)
  have f0: "0 \<le> \<lfloor>\<bar>x\<bar>\<rfloor>" by simp
  have "real_of_int (2 ^ k) \<le> \<bar>x\<bar>" using lo by (simp add: ek pow2_def)
  then have "2 ^ k \<le> \<lfloor>\<bar>x\<bar>\<rfloor>" by (simp only: le_floor_iff)
  then have a: "2 ^ k \<le> n" unfolding n_def using f0 by (simp add: le_nat_iff)
  have "\<bar>x\<bar> < real_of_int (2 ^ Suc k)" using hi by (simp add: ek pow2_def nat_add_distrib)
  then have "\<lfloor>\<bar>x\<bar>\<rfloor> < 2 ^ Suc k" by (simp only: floor_less_iff)
  then have b: "n < 2 ^ Suc k" unfolding n_def using f0 by (simp add: nat_less_iff)
  show ?thesis using floorlog_2_eq [OF a b] True by (simp add: exponent_def bitlen_def n_def ek)
next
  case False
  then have x1: "\<bar>x\<bar> < 1" by simp
  have x0: "0 < \<bar>x\<bar>" using lo pow2_pos [of e] by linarith
  have e0: "e < 0"
  proof (rule ccontr)
    assume "\<not> e < 0"
    then have "1 \<le> pow2 e" by (simp add: pow2_def)
    with lo x1 show False by linarith
  qed
  define k where "k = nat (- e - 1)"
  define n where "n = nat (\<lceil>1 / \<bar>x\<bar>\<rceil> - 1)"
  have ek: "e = - int (Suc k)" using e0 by (simp add: k_def)
  have nk: "nat (- e) = Suc k" using e0 by (simp add: k_def)
  have "1 / 2 ^ Suc k \<le> \<bar>x\<bar>" using lo e0 by (simp add: pow2_def nk)
  then have "1 / \<bar>x\<bar> \<le> real_of_int (2 ^ Suc k)" using x0 by (simp add: field_simps)
  then have c1: "\<lceil>1 / \<bar>x\<bar>\<rceil> \<le> 2 ^ Suc k" by (simp only: ceiling_le_iff)
  have p1: "pow2 (e + 1) = 1 / 2 ^ k"
  proof (cases "e + 1 = 0")
    case True
    then show ?thesis by (simp add: pow2_def k_def)
  next
    case False
    then have "e + 1 < 0" using e0 by simp
    moreover from this have "nat (- (e + 1)) = k" by (simp add: k_def)
    ultimately show ?thesis by (simp add: pow2_def del: minus_add_distrib)
  qed
  have "\<bar>x\<bar> < 1 / 2 ^ k" using hi by (simp add: p1)
  then have "real_of_int (2 ^ k) < 1 / \<bar>x\<bar>" using x0 by (simp add: field_simps)
  then have c2: "2 ^ k < \<lceil>1 / \<bar>x\<bar>\<rceil>" by (simp only: less_ceiling_iff)
  have a: "2 ^ k \<le> n" unfolding n_def using c2 by (simp add: le_nat_iff)
  have c0: "0 \<le> \<lceil>1 / \<bar>x\<bar>\<rceil> - 1"
  proof -
    have "(1::int) \<le> 2 ^ k" by simp
    with c2 show ?thesis by linarith
  qed
  have "\<lceil>1 / \<bar>x\<bar>\<rceil> - 1 < int (2 ^ Suc k)" using c1 by simp
  then have b: "n < 2 ^ Suc k" unfolding n_def by (simp only: nat_less_iff [OF c0])
  show ?thesis using floorlog_2_eq [OF a b] False by (simp add: exponent_def bitlen_def n_def ek)
qed

lemma exponent_log:
  assumes "x \<noteq> 0"
  shows "exponent x = \<lfloor>log 2 \<bar>x\<bar>\<rfloor>"
proof -
  have "0 < \<bar>x\<bar>" using assms by simp
  then have "pow2 \<lfloor>log 2 \<bar>x\<bar>\<rfloor> \<le> \<bar>x\<bar> \<and> \<bar>x\<bar> < pow2 (\<lfloor>log 2 \<bar>x\<bar>\<rfloor> + 1)"
    using floor_log_eq_powr_iff [of "\<bar>x\<bar>" 2 "\<lfloor>log 2 \<bar>x\<bar>\<rfloor>"] by (simp add: pow2_powr)
  then show ?thesis using exponent_at by blast
qed


lemma nearestEven_of_int: "nearestEven (of_int k) = k"
  by (simp add: nearestEven_def)


lemma exponent_less:
  assumes "x \<noteq> 0" and "\<bar>x\<bar> < pow2 n"
  shows "exponent x < n"
proof -
  have "0 < \<bar>x\<bar>" using assms(1) by simp
  then have "log 2 \<bar>x\<bar> < of_int n"
    using assms(2) by (simp add: log_less_iff pow2_powr)
  then show ?thesis by (simp add: exponent_log [OF assms(1)] floor_less_iff)
qed

lemma pow2_nonneg_exp: "0 \<le> k \<Longrightarrow> pow2 k = of_int (2 ^ nat k)"
  by (simp add: pow2_def)

lemma roundFloat_exact:
  assumes m: "\<bar>m\<bar> < 2 ^ p" and k: "emin - int p + 1 \<le> k"
  shows "roundFloat p emin (of_int m * pow2 k) = of_int m * pow2 k"
proof (cases "m = 0")
  case True
  then show ?thesis by (simp add: roundFloat_def)
next
  case False
  define x where "x = real_of_int m * pow2 k"
  have x0: "x \<noteq> 0" using False pow2_pos [of k] by (simp add: x_def)
  have "\<bar>x\<bar> = real_of_int \<bar>m\<bar> * pow2 k"
    using pow2_pos [of k] by (simp add: x_def abs_mult)
  also have "\<dots> < 2 ^ p * pow2 k"
  proof -
    have "real_of_int \<bar>m\<bar> < 2 ^ p" using m by (metis of_int_less_iff of_int_numeral of_int_power)
    then show ?thesis using pow2_pos [of k] by simp
  qed
  also have "\<dots> = pow2 (int p + k)"
    using pow2_add [of "int p" k] by (simp add: pow2_nonneg_exp)
  finally have "exponent x < int p + k" using exponent_less [OF x0] by blast
  then have j: "max (exponent x) emin - int p + 1 \<le> k" using k by linarith
  define j where "j = max (exponent x) emin - int p + 1"
  have jk: "j \<le> k" using j by (simp add: j_def)
  have "pow2 k = pow2 (k - j) * pow2 j" using pow2_add [of "k - j" j] by simp
  then have q: "x / pow2 j = of_int (m * 2 ^ nat (k - j))"
    using pow2_pos [of j] jk by (simp add: x_def pow2_nonneg_exp)
  have "roundFloat p emin x = of_int (nearestEven (x / pow2 j)) * pow2 j"
    using x0 by (simp add: roundFloat_def Let_def j_def)
  also have "\<dots> = of_int (m * 2 ^ nat (k - j)) * pow2 j"
    by (simp only: q nearestEven_of_int)
  also have "\<dots> = x"
    using q pow2_pos [of j] by (metis nonzero_eq_divide_eq less_irrefl)
  finally show ?thesis by (simp add: x_def)
qed

lemma roundFloat_int:
  assumes "\<bar>m\<bar> < 2 ^ p" and "emin - int p + 1 \<le> 0"
  shows "roundFloat p emin (of_int m) = of_int m"
  using roundFloat_exact [OF assms, of ] by (simp add: pow2_def)

lemma round32_int: "\<bar>m\<bar> < 2 ^ 24 \<Longrightarrow> round32 (of_int m) = of_int m"
  unfolding round32_def by (rule roundFloat_int) simp_all

lemma round64_int: "\<bar>m\<bar> < 2 ^ 53 \<Longrightarrow> round64 (of_int m) = of_int m"
  unfolding round64_def by (rule roundFloat_int) simp_all

subsection \<open>The boxes that enclose a pixel\<close>











subsection \<open>What one run of the clusterer appends\<close>








subsection \<open>Shrunk rectangles at given shrink factors\<close>



lemma round32_zero: "round32 0 = 0"
  by (simp add: round32_def roundFloat_def)

lemma round64_zero: "round64 0 = 0"
  by (simp add: round64_def roundFloat_def)

lemma truncToInt_of_int:
  "- (2 ^ 31) \<le> z \<Longrightarrow> z < 2 ^ 31 \<Longrightarrow> truncToInt (of_int z) = Inr z"
  by (simp add: truncToInt_def trunc_def)

lemma smallerBox_zero:
  assumes "- (2 ^ 31) \<le> r_x r" and "r_x r < 2 ^ 31"
    and "- (2 ^ 31) \<le> r_y r" and "r_y r < 2 ^ 31"
    and "\<bar>r_width r\<bar> < 2 ^ 24" and "\<bar>r_height r\<bar> < 2 ^ 24"
  shows "smallerBox 0 r = Inr r"
proof -
  have x: "round64 (real_of_int (r_x r)) = real_of_int (r_x r)"
    by (rule round64_int) (use assms(1,2) in simp)
  have y: "round64 (real_of_int (r_y r)) = real_of_int (r_y r)"
    by (rule round64_int) (use assms(3,4) in simp)
  have w: "round32 (real_of_int (r_width r)) = real_of_int (r_width r)"
    by (rule round32_int) (rule assms(5))
  have h: "round32 (real_of_int (r_height r)) = real_of_int (r_height r)"
    by (rule round32_int) (rule assms(6))
  have one: "round32 1 = 1" using round32_int [of 1] by simp
  have tw: "truncToInt (real_of_int (r_width r)) = Inr (r_width r)"
    using assms(5) by (intro truncToInt_of_int) simp_all
  have th: "truncToInt (real_of_int (r_height r)) = Inr (r_height r)"
    using assms(6) by (intro truncToInt_of_int) simp_all
  show ?thesis
    by (simp add: smallerBox_def round32_zero x y w h one tw th
        truncToInt_of_int [OF assms(1,2)] truncToInt_of_int [OF assms(3,4)])
qed






subsection \<open>Comparing two runs of the clusterer\<close>






subsection \<open>The vote matrix and the scan of a row\<close>

lemma fold_upd:
  "fold (\<lambda>i m. m(int i \<mapsto> g i)) xs m =
     (\<lambda>k. if k \<in> int ` set xs then Some (g (nat k)) else m k)"
  by (induction xs arbitrary: m) (auto simp: fun_eq_iff)

lemma scanBoxes_total:
  "0 \<le> idx \<Longrightarrow> idx < int (length kpts) \<Longrightarrow> \<exists>r. scanBoxes bs kpts idx f = Inr r"
  by (induction bs arbitrary: f) (auto simp: index_vec_def)

lemma scanBoxes_range:
  "scanBoxes bs kpts idx f = Inr r \<Longrightarrow> r = f \<or> r \<in> boxID ` set bs"
proof (induction bs arbitrary: f)
  case Nil
  then show ?case by simp
next
  case (Cons b bs)
  from Cons.prems obtain k where k: "index_vec kpts idx = Inr k"
    by (cases "index_vec kpts idx") auto
  let ?f = "if contains (roi b) (toPoint (pt k)) then boxID b else f"
  from Cons.prems k have "scanBoxes bs kpts idx ?f = Inr r" by simp
  from Cons.IH [OF this] show ?case by (auto split: if_splits)
qed

lemma incrCell_result:
  assumes "c < length M" and "p < length (M ! c)" and "M ! c ! p < 2 ^ 31 - 1"
  shows "incrCell M (int c) (int p) = Inr (M[c := (M ! c)[p := M ! c ! p + 1]])"
  using assms by (simp add: incrCell_def)

lemma fold_upt_Suc: "fold g [0..<Suc n] a = g n (fold g [0..<n] a)"
  by simp

lemma scan_fold:
  assumes "\<forall>j<n. row ! j > lo"
  shows "case fold (scanStep row) [0..<n] (lo, 0) of (mx, ix) \<Rightarrow>
           (if n = 0 then ix = 0 \<and> mx = lo
            else 0 \<le> ix \<and> nat ix < n \<and> mx = row ! nat ix \<and>
                 (\<forall>j<n. row ! j \<le> mx) \<and> (\<forall>j<nat ix. row ! j < mx))"
  using assms
proof (induction n)
  case 0
  then show ?case by simp
next
  case (Suc n)
  obtain mx ix where f: "fold (scanStep row) [0..<n] (lo, 0) = (mx, ix)"
    by (cases "fold (scanStep row) [0..<n] (lo, 0)") auto
  have "\<forall>j<n. row ! j > lo" using Suc.prems by simp
  from Suc.IH [OF this]
  have ih: "if n = 0 then ix = 0 \<and> mx = lo
            else 0 \<le> ix \<and> nat ix < n \<and> mx = row ! nat ix \<and>
                 (\<forall>j<n. row ! j \<le> mx) \<and> (\<forall>j<nat ix. row ! j < mx)"
    by (simp only: f prod.case)
  have rn: "row ! n > lo" using Suc.prems by simp
  show ?case
  proof (cases "row ! n > mx")
    case True
    have "scanStep row n (mx, ix) = (row ! n, int n)"
      using True by (simp add: scanStep_def)
    then have s: "fold (scanStep row) [0..<Suc n] (lo, 0) = (row ! n, int n)"
      by (simp only: fold_upt_Suc f)
    have lt: "\<forall>j<n. row ! j < row ! n"
    proof (cases "n = 0")
      case True then show ?thesis by simp
    next
      case False
      with ih have "\<forall>j<n. row ! j \<le> mx" by (simp only: if_False) blast
      with True show ?thesis by fastforce
    qed
    then have "\<forall>j<Suc n. row ! j \<le> row ! n" by (auto simp: less_Suc_eq)
    with lt show ?thesis by (simp only: s prod.case) simp
  next
    case False
    have "scanStep row n (mx, ix) = (mx, ix)"
      using False by (simp add: scanStep_def)
    then have s: "fold (scanStep row) [0..<Suc n] (lo, 0) = (mx, ix)"
      by (simp only: fold_upt_Suc f)
    have n0: "n \<noteq> 0"
    proof
      assume z: "n = 0"
      with ih have "mx = lo" by simp
      with False rn show False by simp
    qed
    with ih have a: "0 \<le> ix" "nat ix < n" "mx = row ! nat ix"
      "\<forall>j<n. row ! j \<le> mx" "\<forall>j<nat ix. row ! j < mx"
      by (simp_all only: if_False) blast+
    from a(4) False have "\<forall>j<Suc n. row ! j \<le> mx" by (auto simp: less_Suc_eq)
    with a(1,2,3,5) show ?thesis by (simp only: s prod.case) auto
  qed
qed

lemma votes_Cons:
  "votes (m # ms) prevFrame currFrame c p =
     (if scanBoxes (boundingBoxes currFrame) (keypoints currFrame) (trainIdx m) (- 1) = Inr c \<and>
         scanBoxes (boundingBoxes prevFrame) (keypoints prevFrame) (queryIdx m) (- 1) = Inr p
      then 1 else 0) + votes ms prevFrame currFrame c p"
  by (simp add: votes_def)

lemma update_cell:
  assumes "length M = cs" and "\<forall>c<cs. length (M ! c) = ps" and "c0 < cs" and "p0 < ps"
  shows "length (M[c0 := (M ! c0)[p0 := v]]) = cs \<and>
         (\<forall>c<cs. length (M[c0 := (M ! c0)[p0 := v]] ! c) = ps) \<and>
         (\<forall>c<cs. \<forall>p<ps. M[c0 := (M ! c0)[p0 := v]] ! c ! p =
             (if c = c0 \<and> p = p0 then v else M ! c ! p))"
  using assms by (auto simp: nth_list_update)

lemma voteLoop_result:
  assumes idx: "\<forall>m\<in>set ms. 0 \<le> trainIdx m \<and> trainIdx m < int (length (keypoints currFrame)) \<and>
                  0 \<le> queryIdx m \<and> queryIdx m < int (length (keypoints prevFrame))"
    and cid: "\<forall>b\<in>set (boundingBoxes currFrame). 0 \<le> boxID b \<and> boxID b < int cs"
    and pid: "\<forall>b\<in>set (boundingBoxes prevFrame). 0 \<le> boxID b \<and> boxID b < int ps"
    and len: "length M = cs"
    and wid: "\<forall>c<cs. length (M ! c) = ps"
    and bound: "\<forall>c<cs. \<forall>p<ps. M ! c ! p + int (length ms) < 2 ^ 31"
  shows "\<exists>M'. voteLoop ms prevFrame currFrame M = Inr M' \<and> length M' = cs \<and>
           (\<forall>c<cs. length (M' ! c) = ps) \<and>
           (\<forall>c<cs. \<forall>p<ps. M' ! c ! p =
               M ! c ! p + int (votes ms prevFrame currFrame (int c) (int p)))"
  using idx len wid bound
proof (induction ms arbitrary: M)
  case Nil
  then show ?case by (simp add: votes_def)
next
  case (Cons m ms)
  have im: "0 \<le> trainIdx m" "trainIdx m < int (length (keypoints currFrame))"
    "0 \<le> queryIdx m" "queryIdx m < int (length (keypoints prevFrame))"
    using Cons.prems(1) by simp_all
  have idx': "\<forall>m\<in>set ms. 0 \<le> trainIdx m \<and> trainIdx m < int (length (keypoints currFrame)) \<and>
                  0 \<le> queryIdx m \<and> queryIdx m < int (length (keypoints prevFrame))"
    using Cons.prems(1) by simp
  from scanBoxes_total [OF im(1,2)] obtain cI where
    sc: "scanBoxes (boundingBoxes currFrame) (keypoints currFrame) (trainIdx m) (- 1) = Inr cI"
    by blast
  from scanBoxes_total [OF im(3,4)] obtain pI where
    sp: "scanBoxes (boundingBoxes prevFrame) (keypoints prevFrame) (queryIdx m) (- 1) = Inr pI"
    by blast
  have cr: "cI = - 1 \<or> (0 \<le> cI \<and> cI < int cs)"
    using scanBoxes_range [OF sc] cid by auto
  have pr: "pI = - 1 \<or> (0 \<le> pI \<and> pI < int ps)"
    using scanBoxes_range [OF sp] pid by auto
  show ?case
  proof (cases "cI \<noteq> - 1 \<and> pI \<noteq> - 1")
    case True
    define c0 where "c0 = nat cI"
    define p0 where "p0 = nat pI"
    have c0: "c0 < cs" "int c0 = cI" using True cr unfolding c0_def by linarith+
    have p0: "p0 < ps" "int p0 = pI" using True pr unfolding p0_def by linarith+
    have cell: "M ! c0 ! p0 < 2 ^ 31 - 1"
      using Cons.prems(4) c0(1) p0(1) by fastforce
    define M1 where "M1 = M[c0 := (M ! c0)[p0 := M ! c0 ! p0 + 1]]"
    have inc: "incrCell M cI pI = Inr M1"
      using incrCell_result [of c0 M p0] c0 p0 cell Cons.prems(2,3) by (simp add: M1_def)
    have step: "voteLoop (m # ms) prevFrame currFrame M = voteLoop ms prevFrame currFrame M1"
      using True by (simp add: sc sp inc)
    note u = update_cell [OF Cons.prems(2,3) c0(1) p0(1), of "M ! c0 ! p0 + 1", folded M1_def]
    have b1: "\<forall>c<cs. \<forall>p<ps. M1 ! c ! p + int (length ms) < 2 ^ 31"
    proof (intro allI impI)
      fix c p assume "c < cs" "p < ps"
      then have "M1 ! c ! p \<le> M ! c ! p + 1" using u by simp
      moreover have "M ! c ! p + int (length (m # ms)) < 2 ^ 31"
        using Cons.prems(4) \<open>c < cs\<close> \<open>p < ps\<close> by blast
      ultimately show "M1 ! c ! p + int (length ms) < 2 ^ 31" by simp
    qed
    from Cons.IH [OF idx' _ _ b1, of ] u obtain M' where
      r: "voteLoop ms prevFrame currFrame M1 = Inr M'" "length M' = cs"
         "\<forall>c<cs. length (M' ! c) = ps"
         "\<forall>c<cs. \<forall>p<ps. M' ! c ! p =
               M1 ! c ! p + int (votes ms prevFrame currFrame (int c) (int p))"
      by blast
    have "M' ! c ! p = M ! c ! p + int (votes (m # ms) prevFrame currFrame (int c) (int p))"
      if "c < cs" "p < ps" for c p
    proof -
      have a: "M' ! c ! p = M1 ! c ! p + int (votes ms prevFrame currFrame (int c) (int p))"
        using r(4) that by blast
      have b: "M1 ! c ! p = (if c = c0 \<and> p = p0 then M ! c0 ! p0 + 1 else M ! c ! p)"
        using u that by blast
      have e: "(cI = int c \<and> pI = int p) \<longleftrightarrow> (c = c0 \<and> p = p0)"
        using c0(2) p0(2) by auto
      show ?thesis by (auto simp: a b votes_Cons sc sp e)
    qed
    with r step show ?thesis by simp
  next
    case False
    have step: "voteLoop (m # ms) prevFrame currFrame M = voteLoop ms prevFrame currFrame M"
      using False by (auto simp: sc sp)
    have b1: "\<forall>c<cs. \<forall>p<ps. M ! c ! p + int (length ms) < 2 ^ 31"
      using Cons.prems(4) by fastforce
    from Cons.IH [OF idx' Cons.prems(2,3) b1] obtain M' where
      r: "voteLoop ms prevFrame currFrame M = Inr M'" "length M' = cs"
         "\<forall>c<cs. length (M' ! c) = ps"
         "\<forall>c<cs. \<forall>p<ps. M' ! c ! p =
               M ! c ! p + int (votes ms prevFrame currFrame (int c) (int p))"
      by blast
    have z: "\<not> (cI = int c \<and> pI = int p)" for c p
      using False by auto
    have "M' ! c ! p = M ! c ! p + int (votes (m # ms) prevFrame currFrame (int c) (int p))"
      if "c < cs" "p < ps" for c p
      using r(4) that by (simp add: votes_Cons sc sp z)
    with r step show ?thesis by simp
  qed
qed

lemma bestIndex_firstBest:
  assumes "\<forall>p<ps. row ! p = int (v (int p))"
  shows "firstBest v ps (snd (fold (scanStep row) [0..<ps] (- (2 ^ 31), 0)))"
proof -
  have pos: "\<forall>j<ps. row ! j > - (2 ^ 31)"
  proof (intro allI impI)
    fix j assume "j < ps"
    with assms have "row ! j = int (v (int j))" by blast
    then show "row ! j > - (2 ^ 31)" by simp
  qed
  obtain mx ix where f: "fold (scanStep row) [0..<ps] (- (2 ^ 31), 0) = (mx, ix)"
    by (cases "fold (scanStep row) [0..<ps] (- (2 ^ 31), 0)") auto
  from scan_fold [OF pos]
  have inv: "if ps = 0 then ix = 0 \<and> mx = - (2 ^ 31)
            else 0 \<le> ix \<and> nat ix < ps \<and> mx = row ! nat ix \<and>
                 (\<forall>j<ps. row ! j \<le> mx) \<and> (\<forall>j<nat ix. row ! j < mx)"
    by (simp only: f prod.case)
  show ?thesis
  proof (cases "ps = 0")
    case True
    with inv have "ix = 0" by simp
    then show ?thesis using True by (simp add: firstBest_def)
  next
    case False
    with inv have a: "0 \<le> ix" "nat ix < ps" "mx = row ! nat ix"
      "\<forall>j<ps. row ! j \<le> mx" "\<forall>j<nat ix. row ! j < mx"
      by (simp_all only: if_False) blast+
    have vx: "row ! nat ix = int (v ix)" using assms a(1,2) by simp
    have le: "v (int p) \<le> v ix" if "p < ps" for p
    proof -
      have "row ! p \<le> row ! nat ix" using a(3,4) that by blast
      moreover have "row ! p = int (v (int p))" using assms that by blast
      ultimately show ?thesis using vx by simp
    qed
    have lt: "v (int p) < v ix" if "p < nat ix" for p
    proof -
      have "row ! p < row ! nat ix" using a(3,5) that by blast
      moreover have "row ! p = int (v (int p))" using assms that a(2) by simp
      ultimately show ?thesis using vx by simp
    qed
    have "0 \<le> ix \<and> ix < int ps \<and> (\<forall>p<ps. v (int p) \<le> v ix) \<and> (\<forall>p<nat ix. v (int p) < v ix)"
      using a(1,2) le lt by auto
    then show ?thesis using False by (simp only: f snd_conv firstBest_def if_False) blast
  qed
qed

lemma firstBest_zero:
  assumes "firstBest v n j" and "\<forall>p<n. v (int p) = 0"
  shows "j = 0"
proof (cases "n = 0")
  case True
  with assms(1) show ?thesis by (simp add: firstBest_def)
next
  case False
  with assms(1) have a: "0 \<le> j" "j < int n" "\<forall>p<nat j. v (int p) < v j"
    by (simp_all add: firstBest_def)
  show ?thesis
  proof (rule ccontr)
    assume "j \<noteq> 0"
    with a(1) have "0 < nat j" by simp
    with a(3) have "v (int 0) < v j" by blast
    moreover have "v j = 0" using assms(2) a(1,2) by (metis int_nat_eq nat_less_iff)
    ultimately show False by simp
  qed
qed



lemma cluster_ex: "clusterLidarWithROI [box_ex 0 0 0 100 100] [pt_ex 10 10] 0 P_ex I_ex I_ex
     = Inr [(box_ex 0 0 0 100 100)\<lparr>lidarPoints := [pt_ex 10 10]\<rparr>]"
  by (simp add: project_ex smallerBox_zero contains_def trunc_def box_ex_def
     upt_rec [of 0] upt_rec [of 1])


text \<open>
  The clusterer appends to the collections it is given (line 57) and never clears them: run
  on Regions that already own a point, it keeps that point and appends after it.
\<close>

lemma cluster_ex_appends:
  "clusterLidarWithROI [(box_ex 0 0 0 100 100)\<lparr>lidarPoints := [pt_ex 10 10]\<rparr>] [pt_ex 10 10] 0
       P_ex I_ex I_ex
     = Inr [(box_ex 0 0 0 100 100)\<lparr>lidarPoints := [pt_ex 10 10, pt_ex 10 10]\<rparr>]"
  by (simp add: project_ex smallerBox_zero contains_def trunc_def box_ex_def
     upt_rec [of 0] upt_rec [of 1])

subsection \<open>The integer mean of the correspondence filter\<close>

lemma roiLoop_result:
  "\<forall>m\<in>set ms. 0 \<le> trainIdx m \<and> trainIdx m < int (length kptsCurr) \<Longrightarrow>
   roiLoop r kptsCurr ms (a, d) =
     Inr (a @ candidates r kptsCurr ms, d @ map distance (candidates r kptsCurr ms))"
  by (induction ms arbitrary: a d) (auto simp: index_vec_def candidates_def inRoi_def)




text \<open>
  The integer mean rounds towards zero, which is upwards on negative values: the threshold
  is below \<open>0.7\<close> times the mean only when the dissimilarities are not negative. With
  \<open>-0.1\<close> and \<open>-0.9\<close> (values no descriptor distance takes) the integer mean is \<open>0\<close>
  and both correspondences are kept.
\<close>

lemma clusterKptMatchesWithROI_negative_distances:
  "clusterKptMatchesWithROI (box_ex 0 0 0 100 100) [] [kp_ex 5 5, kp_ex 6 6]
      [dm_ex 0 0 (- (1 / 10)), dm_ex 0 1 (- (9 / 10))]
     = Inr ((box_ex 0 0 0 100 100)\<lparr>kptMatches := [dm_ex 0 0 (- (1 / 10)), dm_ex 0 1 (- (9 / 10))]\<rparr>) \<and>
   candidates (roi (box_ex 0 0 0 100 100)) [kp_ex 5 5, kp_ex 6 6]
      [dm_ex 0 0 (- (1 / 10)), dm_ex 0 1 (- (9 / 10))]
     = [dm_ex 0 0 (- (1 / 10)), dm_ex 0 1 (- (9 / 10))] \<and>
   7 / 10 * meanDistance [dm_ex 0 0 (- (1 / 10)), dm_ex 0 1 (- (9 / 10))]
     \<le> distance (dm_ex 0 0 (- (1 / 10)))"
proof -
  have c1: "\<lceil>- (1 / 10) :: real\<rceil> = 0" by (rule ceiling_unique) simp_all
  have c2: "\<lceil>- (9 / 10) :: real\<rceil> = 0" by (rule ceiling_unique) simp_all
  have t1: "truncToInt (- (1 / 10)) = Inr 0" by (simp add: truncToInt_def trunc_def c1)
  have t2: "truncToInt (- (9 / 10)) = Inr 0" by (simp add: truncToInt_def trunc_def c2)
  have l: "roiLoop (roi (box_ex 0 0 0 100 100)) [kp_ex 5 5, kp_ex 6 6]
      [dm_ex 0 0 (- (1 / 10)), dm_ex 0 1 (- (9 / 10))] ([], [])
     = Inr ([dm_ex 0 0 (- (1 / 10)), dm_ex 0 1 (- (9 / 10))], [- (1 / 10), - (9 / 10)])"
    by (simp add: index_vec_def contains_def trunc_def box_ex_def kp_ex_def dm_ex_def)
  have r: "clusterKptMatchesWithROI (box_ex 0 0 0 100 100) [] [kp_ex 5 5, kp_ex 6 6]
      [dm_ex 0 0 (- (1 / 10)), dm_ex 0 1 (- (9 / 10))]
     = Inr ((box_ex 0 0 0 100 100)\<lparr>kptMatches := [dm_ex 0 0 (- (1 / 10)), dm_ex 0 1 (- (9 / 10))]\<rparr>)"
    by (simp only: clusterKptMatchesWithROI_def l) (simp add: t1 t2 divBySize_def box_ex_def dm_ex_def)
  have c: "candidates (roi (box_ex 0 0 0 100 100)) [kp_ex 5 5, kp_ex 6 6]
      [dm_ex 0 0 (- (1 / 10)), dm_ex 0 1 (- (9 / 10))]
     = [dm_ex 0 0 (- (1 / 10)), dm_ex 0 1 (- (9 / 10))]"
    by (simp add: candidates_def inRoi_def contains_def trunc_def box_ex_def kp_ex_def dm_ex_def)
  have m: "7 / 10 * meanDistance [dm_ex 0 0 (- (1 / 10)), dm_ex 0 1 (- (9 / 10))]
     \<le> distance (dm_ex 0 0 (- (1 / 10)))"
    by (simp add: meanDistance_def dm_ex_def)
  show ?thesis using r c m by blast
qed

subsection \<open>The median, single inputs and empty candidate sets\<close>

lemma medianDistRatio_two: "medianDistRatio [a, b] = Inl UndefinedBehaviour"
  by (simp add: medianDistRatio_def index_vec_def)

lemma medianDistRatio_odd:
  "odd (length ds) \<Longrightarrow> medianDistRatio ds = Inr (sort ds ! (length ds div 2))"
  by (auto simp: medianDistRatio_def index_vec_def Let_def odd_iff_mod_2_eq_one)

lemma medianDistRatio_even:
  assumes "even (length ds)" and "4 \<le> length ds"
  shows "medianDistRatio ds = Inr (sort ds ! (length ds div 2 + 1))"
proof -
  have "length ds div 2 + 1 < length ds" using assms by presburger
  then show ?thesis using assms(1)
    by (simp add: medianDistRatio_def index_vec_def Let_def nat_add_distrib)
qed

lemma computeTTCCamera_single_match:
  "computeTTCCamera kptsPrev kptsCurr [m] frameRate = Inr NaN"
  by (simp add: computeTTCCamera_def outerLoop.simps)

lemma computeTTCCamera_no_ratio:
  "outerLoop kptsPrev kptsCurr ms 0 [] = Inr [] \<Longrightarrow>
   computeTTCCamera kptsPrev kptsCurr ms frameRate = Inr NaN"
  by (simp add: computeTTCCamera_def)

lemma clusterKptMatchesWithROI_empty_candidates:
  assumes "\<forall>m\<in>set matches. 0 \<le> trainIdx m \<and> trainIdx m < int (length kptsCurr)"
    and "candidates (roi bb) kptsCurr matches = []"
  shows "clusterKptMatchesWithROI bb kptsPrev kptsCurr matches = Inl DivideByZero"
  using roiLoop_result [OF assms(1), of "roi bb" "[]" "[]"] assms(2)
  by (simp add: clusterKptMatchesWithROI_def divBySize_def)

text \<open>
  On two equal point sets every common distance statistic gives a zero denominator; the code
  returns a finite value, since it divides the two minima by different powers of the count.
\<close>

lemma computeTTCLidar_equal_sets:
  "computeTTCLidar [lane_ex 10, lane_ex 10] [lane_ex 10, lane_ex 10] (Fin 10) = Fin (- 1 / 5)"
  by (simp add: computeTTCLidar_def lane_ex_def)

lemma computeTTCLidar_one_point_each:
  "computeTTCLidar [lane_ex 10] [lane_ex 8] (Fin 10) = Fin (2 / 5)"
  by (simp add: computeTTCLidar_def lane_ex_def)

section \<open>The claims\<close>

text \<open>
  C3. Range-based TTC: with closest in-lane distances \<open>prevDistance\<close> and
  \<open>currDistance\<close> the result should be
  \<open>currDistance * (1 / frameRate) / (prevDistance - currDistance)\<close>, which is \<open>0.4\<close> for
  distances 10 and 8 at frame rate 10. The code divides the previous minimum by the number of
  in-lane points twice (lines 244 and 254) and the current minimum once (line 253). With two
  in-lane points at distance 10 in the previous set and two at distance 8 in the current set,
  the closest in-lane distances are 10 and 8 and the code returns \<open>-4/15\<close>, not \<open>2/5\<close>.
\<close>

theorem computeTTCLidar_divides_minimum_by_count:
  "closestInLane [lane_ex 10, lane_ex 10] = 10 \<and>
   closestInLane [lane_ex 8, lane_ex 8] = 8 \<and>
   computeTTCLidar [lane_ex 10, lane_ex 10] [lane_ex 8, lane_ex 8] (Fin 10) = Fin (- 4 / 15) \<and>
   Fin (- 4 / 15) \<noteq> Fin (8 * (1 / 10) / (10 - 8))"
  by (simp add: computeTTCLidar_def closestInLane_def lane_ex_def)

text \<open>
  C10. Range-based TTC: when both point sets are non-empty and no point of either set lies in
  the ego lane (\<open>|y| > laneWidth / 2\<close> with \<open>laneWidth = 4\<close>), the result is the
  not-a-number sentinel, for every frame rate: both minima stay at \<open>1e9\<close>, both counts at
  zero, the quotients are \<open>+\<infinity>\<close> and their difference is not a number.
\<close>

theorem computeTTCLidar_no_in_lane_point:
  assumes "lpPrev \<noteq> []" and "lpCurr \<noteq> []"
    and "\<forall>p\<in>set lpPrev. \<bar>lp_y p\<bar> > 4 / 2"
    and "\<forall>p\<in>set lpCurr. \<bar>lp_y p\<bar> > 4 / 2"
  shows "computeTTCLidar lpPrev lpCurr frameRate = NaN"
proof -
  have p: "laneScan 4 lpPrev (1000000000, 0) = (1000000000, 0)"
    using assms(3) by (rule laneScan_none)
  have c: "laneScan 4 lpCurr (1000000000, 0) = (1000000000, 0)"
    using assms(4) by (rule laneScan_none)
  show ?thesis using assms(1,2)
    by (simp add: computeTTCLidar_def p c d_div_NaN_right)
qed

theorem computeTTCLidar_no_in_lane_point_witness:
  "computeTTCLidar [\<lparr>lp_x = 7, lp_y = 3, lp_z = 0, lp_r = 0\<rparr>]
     [\<lparr>lp_x = 6, lp_y = - 5, lp_z = 0, lp_r = 0\<rparr>] (Fin 10) = NaN"
  by (rule computeTTCLidar_no_in_lane_point) simp_all

text \<open>
  C1. Vision-based TTC: the median of an even, non-zero number of surviving ratios should be
  a well-defined element of the sorted list, one of the two middle ones. The code reads
  position \<open>size / 2 + 1\<close> (line 208). Three matches whose current keypoints lie at
  \<open>x = 0, 50, 200\<close> on one row leave two surviving ratios (the pair at distance 50 is below
  the minimum distance 100), and position 2 of a vector of two elements is read.
\<close>

theorem computeTTCCamera_two_ratios_reads_past_end:
  "outerLoop [kp_ex 0 0, kp_ex 40 0, kp_ex 150 0] [kp_ex 0 0, kp_ex 50 0, kp_ex 200 0]
     [dm_ex 0 0 1, dm_ex 1 1 1, dm_ex 2 2 1] 0 [] = Inr [4 / 3, 15 / 11] \<and>
   computeTTCCamera [kp_ex 0 0, kp_ex 40 0, kp_ex 150 0] [kp_ex 0 0, kp_ex 50 0, kp_ex 200 0]
     [dm_ex 0 0 1, dm_ex 1 1 1, dm_ex 2 2 1] (Fin 10) = Inl UndefinedBehaviour"
proof -
  have o: "outerLoop [kp_ex 0 0, kp_ex 40 0, kp_ex 150 0] [kp_ex 0 0, kp_ex 50 0, kp_ex 200 0]
     [dm_ex 0 0 1, dm_ex 1 1 1, dm_ex 2 2 1] 0 [] = Inr [4 / 3, 15 / 11]"
    by (simp add: kp_ex_def dm_ex_def at_vec_def norm2f_same_row outerLoop.simps innerLoop.simps)
  have m: "medianDistRatio [4 / 3, 15 / 11] = Inl UndefinedBehaviour"
    by (simp add: medianDistRatio_def index_vec_def)
  show ?thesis by (simp add: computeTTCCamera_def o m)
qed

text \<open>
  C7. Vision-based TTC: with zero surviving ratios the result should be the not-a-number
  sentinel, also for an empty correspondence list. On an empty list the outer loop compares
  \<open>begin()\<close> with \<open>end() - 1\<close>, enters its body and reads the first element of an
  empty vector (line 168 and 172): undefined behaviour, for all keypoints and frame rates.
\<close>

theorem computeTTCCamera_empty_matches:
  "computeTTCCamera kptsPrev kptsCurr [] frameRate = Inl UndefinedBehaviour"
  by (simp add: computeTTCCamera_def outerLoop.simps)

text \<open>
  C2. Correspondence filter: when no correspondence has its current keypoint inside the
  rectangle, the operation should retain nothing and divide by nothing. The code divides the
  accumulated sum by \<open>accDistances.size()\<close>, which is zero (line 151): an integer division
  by zero. Here one match lies outside the rectangle.
\<close>

theorem clusterKptMatchesWithROI_no_candidate:
  "clusterKptMatchesWithROI (box_ex 0 0 0 100 100) [kp_ex 0 0] [kp_ex 500 500] [dm_ex 0 0 1]
     = Inl DivideByZero"
  by (simp add: clusterKptMatchesWithROI_def divBySize_def index_vec_def contains_def
      trunc_def box_ex_def kp_ex_def dm_ex_def)






text \<open>
  C5. Region associator: the map gets an entry for every current-frame Region identifier;
  the entry is the previous-frame identifier with the highest vote count in the row of that
  current Region, the lowest one among equals; a current Region without any vote is mapped
  to previous identifier \<open>0\<close>. Entries of the map under other keys are left as they
  were. The vote matrix is indexed by the identifiers, so the identifiers of each frame are
  taken to lie in \<open>0, ..., size - 1\<close>, the keypoint indices of the correspondences to be
  in range, and the number of correspondences to fit a 32-bit counter.
\<close>

theorem matchBoundingBoxes_best_previous_region:
  assumes idx: "\<forall>m\<in>set matches.
        0 \<le> trainIdx m \<and> trainIdx m < int (length (keypoints currFrame)) \<and>
        0 \<le> queryIdx m \<and> queryIdx m < int (length (keypoints prevFrame))"
    and cid: "\<forall>b\<in>set (boundingBoxes currFrame).
        0 \<le> boxID b \<and> boxID b < int (length (boundingBoxes currFrame))"
    and pid: "\<forall>b\<in>set (boundingBoxes prevFrame).
        0 \<le> boxID b \<and> boxID b < int (length (boundingBoxes prevFrame))"
    and len: "length matches < 2 ^ 31"
  shows "\<exists>m'. matchBoundingBoxes matches bbBestMatches prevFrame currFrame = Inr m' \<and>
           (\<forall>k. \<not> (0 \<le> k \<and> k < int (length (boundingBoxes currFrame))) \<longrightarrow>
                m' k = bbBestMatches k) \<and>
           (\<forall>b\<in>set (boundingBoxes currFrame). \<exists>j.
                m' (boxID b) = Some j \<and>
                firstBest (votes matches prevFrame currFrame (boxID b))
                  (length (boundingBoxes prevFrame)) j \<and>
                ((\<forall>p<length (boundingBoxes prevFrame).
                    votes matches prevFrame currFrame (boxID b) (int p) = 0) \<longrightarrow> j = 0))"
proof -
  define cs where "cs = length (boundingBoxes currFrame)"
  define ps where "ps = length (boundingBoxes prevFrame)"
  define M0 :: "int list list" where "M0 = replicate cs (replicate ps 0)"
  have l0: "length M0 = cs" by (simp add: M0_def)
  have w0: "\<forall>c<cs. length (M0 ! c) = ps" by (simp add: M0_def)
  have b0: "\<forall>c<cs. \<forall>p<ps. M0 ! c ! p + int (length matches) < 2 ^ 31"
    using len by (simp add: M0_def)
  from voteLoop_result [OF idx cid [folded cs_def] pid [folded ps_def] l0 w0 b0]
  obtain M where M: "voteLoop matches prevFrame currFrame M0 = Inr M" "length M = cs"
      "\<forall>c<cs. length (M ! c) = ps"
      "\<forall>c<cs. \<forall>p<ps. M ! c ! p =
          M0 ! c ! p + int (votes matches prevFrame currFrame (int c) (int p))"
    by blast
  have cell: "\<forall>p<ps. M ! c ! p = int (votes matches prevFrame currFrame (int c) (int p))"
    if "c < cs" for c
    using M(4) that by (simp add: M0_def)
  define m' where "m' = fold (\<lambda>i m. m(int i \<mapsto> bestIndex M ps i)) [0..<cs] bbBestMatches"
  have run: "matchBoundingBoxes matches bbBestMatches prevFrame currFrame = Inr m'"
    using M(1) by (simp add: matchBoundingBoxes_def Let_def cs_def ps_def M0_def m'_def)
  have mk: "m' k = (if k \<in> int ` set [0..<cs] then Some (bestIndex M ps (nat k))
                    else bbBestMatches k)" for k
    unfolding m'_def by (simp only: fold_upd)
  have out: "m' k = bbBestMatches k" if "\<not> (0 \<le> k \<and> k < int cs)" for k
    using that by (auto simp: mk)
  have inb: "\<exists>j. m' (boxID b) = Some j \<and>
         firstBest (votes matches prevFrame currFrame (boxID b)) ps j \<and>
         ((\<forall>p<ps. votes matches prevFrame currFrame (boxID b) (int p) = 0) \<longrightarrow> j = 0)"
    if b: "b \<in> set (boundingBoxes currFrame)" for b
  proof -
    define c where "c = nat (boxID b)"
    have c: "c < cs" "int c = boxID b" using cid b unfolding c_def cs_def by fastforce+
    have "boxID b \<in> int ` set [0..<cs]" using c by (metis atLeastLessThan_iff imageI set_upt zero_le)
    then have v: "m' (boxID b) = Some (bestIndex M ps c)" by (simp add: mk c_def)
    have fb: "firstBest (votes matches prevFrame currFrame (boxID b)) ps (bestIndex M ps c)"
      unfolding bestIndex_def
      by (rule bestIndex_firstBest) (use cell [OF c(1)] c(2) in simp)
    show ?thesis using v fb firstBest_zero [OF fb] by blast
  qed
  show ?thesis using run out inb unfolding cs_def ps_def by blast
qed

theorem matchBoundingBoxes_best_previous_region_witness:
  "\<exists>m'. matchBoundingBoxes [dm_ex 0 0 1, dm_ex 1 1 1, dm_ex 2 2 1] Map.empty prev_ex curr_ex = Inr m' \<and>
           (\<forall>k. \<not> (0 \<le> k \<and> k < int (length (boundingBoxes curr_ex))) \<longrightarrow>
                m' k = Map.empty k) \<and>
           (\<forall>b\<in>set (boundingBoxes curr_ex). \<exists>j.
                m' (boxID b) = Some j \<and>
                firstBest (votes [dm_ex 0 0 1, dm_ex 1 1 1, dm_ex 2 2 1] prev_ex curr_ex (boxID b))
                  (length (boundingBoxes prev_ex)) j \<and>
                ((\<forall>p<length (boundingBoxes prev_ex).
                    votes [dm_ex 0 0 1, dm_ex 1 1 1, dm_ex 2 2 1] prev_ex curr_ex (boxID b) (int p) = 0)
                    \<longrightarrow> j = 0))"
  by (rule matchBoundingBoxes_best_previous_region) (simp_all add: prev_ex_def curr_ex_def box_ex_def dm_ex_def)





end
